theory Spec2Isabelle
  imports Complex_Main
begin

section \<open>BAM utilities of cnvlib (samutil.py)\<close>

text \<open>
  A shallow embedding of \<^verbatim>\<open>cnvlib/samutil.py\<close>. The module is Python 2 code
  (it tests \<^verbatim>\<open>isinstance(lines, basestring)\<close>), so strings are byte strings and
  integers are unbounded. Exceptions are values of the type \<open>error\<close>; a function that
  can raise returns \<open>error + 'a\<close>, with \<open>Inl\<close> the exception. The file system, the
  logging sink and the \<^verbatim>\<open>pysam\<close> library are outside the module: the file system and
  the log are the explicit state \<open>world\<close>, and the three \<^verbatim>\<open>pysam\<close> entry points the
  module calls are the fields of the record \<open>pysam\<close>, taken as a parameter.
\<close>

subsection \<open>Exceptions\<close>

datatype error =
    ValueError            \<comment> \<open>tuple unpacking of the wrong length, \<^verbatim>\<open>int()\<close> of a bad literal, bad \<^verbatim>\<open>islice\<close> stop\<close>
  | AssertionError string \<comment> \<open>a failed \<^verbatim>\<open>assert\<close>, with its message\<close>
  | OSError               \<comment> \<open>\<^verbatim>\<open>os.stat\<close> of a path that cannot be read\<close>
  | SamtoolsError         \<comment> \<open>whatever the \<^verbatim>\<open>pysam\<close> library raises itself\<close>

subsection \<open>Python built-ins on byte strings\<close>

definition py_isspace :: "char \<Rightarrow> bool" where
  "py_isspace c \<longleftrightarrow>
     c = CHR '' '' \<or> c = CHR 0x09 \<or> c = CHR 0x0A \<or> c = CHR 0x0B \<or> c = CHR 0x0C \<or> c = CHR 0x0D"

text \<open>\<^verbatim>\<open>str.split()\<close> without arguments: the maximal runs of non-whitespace bytes.
  The first argument is the field being read, reversed.\<close>

fun split_from :: "string \<Rightarrow> string \<Rightarrow> string list" where
  "split_from cur [] = (if cur = [] then [] else [rev cur])"
| "split_from cur (c # cs) =
     (if py_isspace c
      then (if cur = [] then split_from [] cs else rev cur # split_from [] cs)
      else split_from (c # cur) cs)"

definition py_split :: "string \<Rightarrow> string list" where
  "py_split s = split_from [] s"

text \<open>\<^verbatim>\<open>str.splitlines()\<close> of a byte string: lines end at LF, CR or CR LF; the line ends
  are dropped and no empty last line is produced.\<close>

fun skip_lf :: "string \<Rightarrow> string" where
  "skip_lf [] = []"
| "skip_lf (d # ds) = (if d = CHR 0x0A then ds else d # ds)"

lemma length_skip_lf [termination_simp]: "length (skip_lf cs) \<le> length cs"
  by (cases cs) auto

fun splitlines_from :: "string \<Rightarrow> string \<Rightarrow> string list" where
  "splitlines_from cur [] = (if cur = [] then [] else [rev cur])"
| "splitlines_from cur (c # cs) =
     (if c = CHR 0x0A then rev cur # splitlines_from [] cs
      else if c = CHR 0x0D then rev cur # splitlines_from [] (skip_lf cs)
      else splitlines_from (c # cur) cs)"

definition py_splitlines :: "string \<Rightarrow> string list" where
  "py_splitlines s = splitlines_from [] s"

text \<open>\<^verbatim>\<open>int(s)\<close> in base 10: surrounding whitespace is ignored, then an optional sign and
  at least one decimal digit; anything else raises \<^verbatim>\<open>ValueError\<close>. (The module calls it
  on a field of \<^verbatim>\<open>split()\<close>, which holds no whitespace.)\<close>

definition is_digit :: "char \<Rightarrow> bool" where
  "is_digit c \<longleftrightarrow> (48::nat) \<le> of_char c \<and> of_char c \<le> (57::nat)"

definition digit_val :: "char \<Rightarrow> int" where
  "digit_val c = int (of_char c) - 48"

definition digits_val :: "string \<Rightarrow> int" where
  "digits_val ds = foldl (\<lambda>a c. 10 * a + digit_val c) 0 ds"

definition py_strip :: "string \<Rightarrow> string" where
  "py_strip s = rev (dropWhile py_isspace (rev (dropWhile py_isspace s)))"

definition py_int :: "string \<Rightarrow> error + int" where
  "py_int s =
     (let t = py_strip s;
          neg = (t \<noteq> [] \<and> hd t = CHR ''-'');
          ds = (if t \<noteq> [] \<and> (hd t = CHR ''-'' \<or> hd t = CHR ''+'') then tl t else t)
      in if ds \<noteq> [] \<and> list_all is_digit ds
         then Inr (if neg then - digits_val ds else digits_val ds)
         else Inl ValueError)"

text \<open>Comparison of byte strings (\<^verbatim>\<open>a <= b\<close>): lexicographic, by byte value.\<close>

fun str_le :: "string \<Rightarrow> string \<Rightarrow> bool" where
  "str_le [] ys = True"
| "str_le (x # xs) [] = False"
| "str_le (x # xs) (y # ys) =
     (if x = y then str_le xs ys else (of_char x :: nat) < of_char y)"

subsection \<open>The file system, the log and the pysam library\<close>

text \<open>What \<^verbatim>\<open>os.stat\<close> returns for a path: whether it is a regular file, and its
  modification time. The time is a finite float in Python; only its order is used, so
  it is a real number here. A path with no entry is one \<^verbatim>\<open>os.stat\<close> raises on.\<close>

record file_stat =
  is_regular :: bool
  st_mtime :: real

record world =
  files :: "string \<rightharpoonup> file_stat"
  logged :: "string list"

definition isfile :: "world \<Rightarrow> string \<Rightarrow> bool" where
  "isfile w path = (case files w path of None \<Rightarrow> False | Some st \<Rightarrow> is_regular st)"

definition logging_info :: "world \<Rightarrow> string \<Rightarrow> world" where
  "logging_info w msg = w\<lparr>logged := logged w @ [msg]\<rparr>"

text \<open>A read of an alignment file, with the three attributes the module looks at.\<close>

record read =
  qname :: string
  tid :: int
  pos :: int

text \<open>\<^verbatim>\<open>pysam.idxstats\<close> returns one string or a list of lines, by library version.\<close>

datatype idxstats_out = Text string | Lines "string list"

text \<open>The entry points of the library the module calls. \<^verbatim>\<open>idxstats\<close> and \<^verbatim>\<open>Samfile\<close>
  read the file system; \<^verbatim>\<open>index\<close> may change it, also when it raises. \<^verbatim>\<open>Samfile\<close>
  answers the reads of the file in their order, the iteration itself raising nothing.\<close>

record pysam =
  pysam_idxstats :: "world \<Rightarrow> string \<Rightarrow> error + idxstats_out"
  pysam_index :: "world \<Rightarrow> string \<Rightarrow> (error + unit) \<times> world"
  pysam_Samfile :: "world \<Rightarrow> string \<Rightarrow> error + read list"

subsection \<open>bam_total_reads\<close>

definition stats_lines :: "idxstats_out \<Rightarrow> string list" where
  "stats_lines out = (case out of Text s \<Rightarrow> py_splitlines s | Lines ls \<Rightarrow> ls)"

text \<open>The loop of \<open>bam_total_reads\<close>; the first argument is \<^verbatim>\<open>tot_mapped_reads\<close>.
  Unpacking into four names raises \<^verbatim>\<open>ValueError\<close> unless there are exactly four fields.\<close>

fun sum_mapped :: "int \<Rightarrow> string list \<Rightarrow> error + int" where
  "sum_mapped tot_mapped_reads [] = Inr tot_mapped_reads"
| "sum_mapped tot_mapped_reads (line # lines) =
     (let fields = py_split line in
      if length fields \<noteq> 4 then Inl ValueError
      else (case py_int (fields ! 2) of
              Inl e \<Rightarrow> Inl e
            | Inr nmapped \<Rightarrow> sum_mapped (tot_mapped_reads + nmapped) lines))"

definition bam_total_reads :: "pysam \<Rightarrow> world \<Rightarrow> string \<Rightarrow> (error + int) \<times> world" where
  "bam_total_reads py w bam_fname =
     (case pysam_idxstats py w bam_fname of
        Inl e \<Rightarrow> (Inl e, w)
      | Inr out \<Rightarrow> (sum_mapped 0 (stats_lines out), w))"

subsection \<open>is_newer_than\<close>

definition is_newer_than :: "world \<Rightarrow> string \<Rightarrow> string \<Rightarrow> error + bool" where
  "is_newer_than w target_fname orig_fname =
     (if \<not> isfile w target_fname then Inr False
      else (case files w target_fname of
              None \<Rightarrow> Inl OSError
            | Some st_target \<Rightarrow>
                (case files w orig_fname of
                   None \<Rightarrow> Inl OSError
                 | Some st_orig \<Rightarrow> Inr (st_mtime st_target \<ge> st_mtime st_orig))))"

subsection \<open>ensure_bam_index\<close>

text \<open>Lines 34 to 39: the index file looked for, \<^verbatim>\<open>MySample.bam.bai\<close> when it is a
  file and \<^verbatim>\<open>MySample.bai\<close> otherwise. \<^verbatim>\<open>bam_fname[:-1]\<close> is \<open>butlast\<close>.\<close>

definition candidate_bai :: "world \<Rightarrow> string \<Rightarrow> string" where
  "candidate_bai w bam_fname =
     (if isfile w (bam_fname @ ''.bai'') then bam_fname @ ''.bai''
      else butlast bam_fname @ ''i'')"

text \<open>Lines 44 to 46: the assertion and the return. Assertions are taken as enabled.\<close>

definition assert_isfile :: "world \<Rightarrow> string \<Rightarrow> (error + string) \<times> world" where
  "assert_isfile w bai_fname =
     (if isfile w bai_fname then (Inr bai_fname, w)
      else (Inl (AssertionError (''Failed to generate index '' @ bai_fname)), w))"

text \<open>Lines 41 to 46, when the index looked for is not newer than the alignment file:
  the log entry, the call of \<^verbatim>\<open>pysam.index\<close> (whose exception, if any, ends the call),
  then the assertion on \<^verbatim>\<open><file>.bai\<close>.\<close>

definition regenerate :: "pysam \<Rightarrow> world \<Rightarrow> string \<Rightarrow> (error + string) \<times> world" where
  "regenerate py w bam_fname =
     (let w1 = logging_info w (''Indexing BAM file '' @ bam_fname) in
      case pysam_index py w1 bam_fname of
        (Inl e, w2) \<Rightarrow> (Inl e, w2)
      | (Inr u, w2) \<Rightarrow> assert_isfile w2 (bam_fname @ ''.bai''))"

definition ensure_bam_index :: "pysam \<Rightarrow> world \<Rightarrow> string \<Rightarrow> (error + string) \<times> world" where
  "ensure_bam_index py w bam_fname =
     (let bai_fname = candidate_bai w bam_fname in
      case is_newer_than w bai_fname bam_fname of
        Inl e \<Rightarrow> (Inl e, w)
      | Inr newer \<Rightarrow>
          if \<not> newer then regenerate py w bam_fname
          else assert_isfile w bai_fname)"

subsection \<open>ensure_bam_sorted\<close>

text \<open>The two local functions \<^verbatim>\<open>out_of_order\<close>, chosen by \<^verbatim>\<open>by_name\<close>; \<open>None\<close> is
  Python's \<^verbatim>\<open>None\<close> for the read before the first.\<close>

definition out_of_order :: "bool \<Rightarrow> read \<Rightarrow> read option \<Rightarrow> bool" where
  "out_of_order by_name rd prev =
     (if by_name
      then \<not> (case prev of None \<Rightarrow> True | Some p \<Rightarrow> str_le (qname p) (qname rd))
      else \<not> (case prev of None \<Rightarrow> True
                | Some p \<Rightarrow> tid rd \<noteq> tid p \<or> pos p \<le> pos rd))"

text \<open>The loop over the reads; the second argument is \<^verbatim>\<open>last_read\<close>.\<close>

fun sorted_loop :: "bool \<Rightarrow> read option \<Rightarrow> read list \<Rightarrow> bool" where
  "sorted_loop by_name last_read [] = True"
| "sorted_loop by_name last_read (rd # rest) =
     (if out_of_order by_name rd last_read then False
      else sorted_loop by_name (Some rd) rest)"

text \<open>\<^verbatim>\<open>itertools.islice(bam, span)\<close> raises \<^verbatim>\<open>ValueError\<close> unless
  \<^verbatim>\<open>0 <= span <= sys.maxint\<close>; \<open>sys_maxint\<close> is that of a 64-bit interpreter. The
  parameter \<^verbatim>\<open>span\<close> is \<open>span_arg\<close> here, its default value \<open>default_span\<close>.\<close>

definition sys_maxint :: int where
  "sys_maxint = 2 ^ 63 - 1"

definition default_span :: int where
  "default_span = 50"

definition ensure_bam_sorted :: "pysam \<Rightarrow> world \<Rightarrow> string \<Rightarrow> bool \<Rightarrow> int \<Rightarrow> error + bool" where
  "ensure_bam_sorted py w bam_fname by_name span_arg =
     (case pysam_Samfile py w bam_fname of
        Inl e \<Rightarrow> Inl e
      | Inr bam \<Rightarrow>
          if span_arg < 0 \<or> sys_maxint < span_arg then Inl ValueError
          else Inr (sorted_loop by_name None (take (nat span_arg) bam)))"

subsection \<open>Readings of the specification and concrete inputs\<close>

text \<open>The mapped-read count of a statistics line: its third field, read by \<^verbatim>\<open>int()\<close>.\<close>

definition mapped_field :: "string \<Rightarrow> error + int" where
  "mapped_field line = py_int (py_split line ! 2)"

text \<open>A stand-in for the library: \<^verbatim>\<open>idxstats\<close> answers \<open>out\<close>, \<^verbatim>\<open>index\<close> behaves as
  \<open>idx\<close>, and an alignment file holds the reads \<open>recs\<close>.\<close>

definition pysam_stub ::
  "idxstats_out \<Rightarrow> (world \<Rightarrow> string \<Rightarrow> (error + unit) \<times> world) \<Rightarrow> read list \<Rightarrow> pysam" where
  "pysam_stub out idx recs =
     \<lparr>pysam_idxstats = (\<lambda>w f. Inr out), pysam_index = idx, pysam_Samfile = (\<lambda>w f. Inr recs)\<rparr>"

text \<open>Writing a regular file at \<open>path\<close>, with modification time \<open>t\<close>.\<close>

definition add_file :: "world \<Rightarrow> string \<Rightarrow> real \<Rightarrow> world" where
  "add_file w path t = w\<lparr>files := (files w)(path \<mapsto> \<lparr>is_regular = True, st_mtime = t\<rparr>)\<rparr>"

text \<open>An indexer that writes \<^verbatim>\<open><file>.bai\<close> with modification time \<open>t\<close>, and one that
  reports success and writes nothing.\<close>

definition index_writes :: "real \<Rightarrow> world \<Rightarrow> string \<Rightarrow> (error + unit) \<times> world" where
  "index_writes t w f = (Inr (), add_file w (f @ ''.bai'') t)"

definition index_writes_nothing :: "world \<Rightarrow> string \<Rightarrow> (error + unit) \<times> world" where
  "index_writes_nothing w f = (Inr (), w)"

text \<open>A file system with one alignment file \<^verbatim>\<open>s.bam\<close>, modified at time \<open>t\<close>, and an
  empty log.\<close>

definition bam_only :: "real \<Rightarrow> world" where
  "bam_only t = add_file \<lparr>files = Map.empty, logged = []\<rparr> ''s.bam'' t"

text \<open>Statistics of three reference sequences, as one text and as lines.\<close>

definition stats_text :: string where
  "stats_text = ''chr1 1000 12 0'' @ [CHR 0x0A] @ ''chr2 500 30 1'' @ [CHR 0x0A]
                 @ ''* 0 0 7'' @ [CHR 0x0A]"

definition stats_list :: "string list" where
  "stats_list = [''chr1 1000 12 0'', ''* 0 0 7'', ''chrM 16 7 2'']"

text \<open>Two lines of four fields each, the second with a third field that is no number.\<close>

definition stats_word_count :: "string list" where
  "stats_word_count = [''chr1 1000 7 0'', ''chr2 5 seven 0'']"

text \<open>Lines of which the second has three fields, and a line with a negative count.\<close>

definition stats_short_line :: "string list" where
  "stats_short_line = [''chr1 1000 12 0'', ''chr2 500 30'', ''chr3 10 1 1'']"

definition stats_negative :: "string list" where
  "stats_negative = [''chr1 1000 -5 0'']"

text \<open>Three libraries that differ in their indexer: one stamps the index it writes
  with time 100, one with time 250, one writes no index. Then the file system and log
  after one and after two regenerations of the index of \<^verbatim>\<open>s.bam\<close> (modified at 200) by
  an indexer that stamps the index with \<open>t\<close>.\<close>

definition late_indexer :: pysam where
  "late_indexer = pysam_stub (Lines []) (index_writes 100) []"

definition prompt_indexer :: pysam where
  "prompt_indexer = pysam_stub (Lines []) (index_writes 250) []"

definition idle_indexer :: pysam where
  "idle_indexer = pysam_stub (Lines []) index_writes_nothing []"

definition indexed_once :: "real \<Rightarrow> world" where
  "indexed_once t = add_file (logging_info (bam_only 200) ''Indexing BAM file s.bam'') ''s.bam.bai'' t"

definition indexed_twice :: "real \<Rightarrow> world" where
  "indexed_twice t = add_file (logging_info (indexed_once t) ''Indexing BAM file s.bam'') ''s.bam.bai'' t"

text \<open>The order the specification asks of a read \<open>rd\<close> and the read \<open>prev\<close> just before
  it: by query name, \<open>prev\<close>'s name is at most \<open>rd\<close>'s; by position, \<open>rd\<close> is on another
  reference sequence or at a position not before \<open>prev\<close>'s.\<close>

definition in_order :: "bool \<Rightarrow> read \<Rightarrow> read \<Rightarrow> bool" where
  "in_order by_name prev rd =
     (if by_name then str_le (qname prev) (qname rd)
      else tid rd \<noteq> tid prev \<or> pos prev \<le> pos rd)"

section \<open>Properties\<close>

subsection \<open>The loop of bam_total_reads\<close>

lemma py_int_error: "py_int s = Inl e \<Longrightarrow> e = ValueError"
  by (auto simp: py_int_def Let_def split: if_splits)

lemma sum_mapped_well_formed:
  "\<forall>line\<in>set lines. length (py_split line) = 4 \<Longrightarrow>
   sum_mapped tot lines =
     (if \<forall>line\<in>set lines. \<not> isl (mapped_field line)
      then Inr (tot + (\<Sum>line\<leftarrow>lines. projr (mapped_field line)))
      else Inl ValueError)"
proof (induction lines arbitrary: tot)
  case Nil
  then show ?case by simp
next
  case (Cons line lines)
  show ?case
  proof (cases "mapped_field line")
    case (Inl e)
    then have "e = ValueError" by (simp add: mapped_field_def py_int_error)
    with Inl Cons.prems show ?thesis by (simp add: mapped_field_def)
  next
    case (Inr n)
    with Cons show ?thesis by (simp add: mapped_field_def add.assoc)
  qed
qed

lemma sum_mapped_malformed:
  "\<exists>line\<in>set lines. length (py_split line) \<noteq> 4 \<Longrightarrow> sum_mapped tot lines = Inl ValueError"
proof (induction lines arbitrary: tot)
  case Nil
  then show ?case by simp
next
  case (Cons line lines)
  show ?case
  proof (cases "length (py_split line) = 4")
    case False
    then show ?thesis by simp
  next
    case True
    with Cons.prems have rest: "\<exists>l\<in>set lines. length (py_split l) \<noteq> 4" by auto
    show ?thesis
    proof (cases "py_int (py_split line ! 2)")
      case (Inl e)
      with True show ?thesis by (simp add: py_int_error)
    next
      case (Inr n)
      with True Cons.IH [OF rest] show ?thesis by simp
    qed
  qed
qed

lemma sum_mapped_nonneg:
  "sum_mapped tot lines = Inr n \<Longrightarrow> 0 \<le> tot \<Longrightarrow>
   \<forall>line\<in>set lines. \<forall>m. length (py_split line) = 4 \<and> mapped_field line = Inr m \<longrightarrow> 0 \<le> m \<Longrightarrow>
   0 \<le> n"
proof (induction lines arbitrary: tot)
  case Nil
  then show ?case by simp
next
  case (Cons line lines)
  from Cons.prems(1) obtain m where len: "length (py_split line) = 4"
    and m: "mapped_field line = Inr m" and rest: "sum_mapped (tot + m) lines = Inr n"
    by (auto simp: mapped_field_def Let_def split: if_splits sum.splits)
  from Cons.prems(3) len m have "0 \<le> m" by simp
  with Cons.prems(2) have "0 \<le> tot + m" by simp
  from Cons.IH [OF rest this] Cons.prems(3) show ?case by simp
qed

lemmas eval_strings =
  py_split_def py_splitlines_def py_isspace_def py_int_def py_strip_def is_digit_def
  digits_val_def digit_val_def mapped_field_def stats_lines_def

lemmas eval_worlds =
  pysam_stub_def index_writes_def index_writes_nothing_def bam_only_def add_file_def
  isfile_def logging_info_def

subsection \<open>bam_total_reads\<close>

text \<open>
  Claim C1, as stated, fails. Four whitespace-separated fields do not make a line
  well-formed for \<open>bam_total_reads\<close>: the third field is read by \<^verbatim>\<open>int()\<close>, which raises
  \<^verbatim>\<open>ValueError\<close> on a field that is no integer literal, and no sum is returned.
\<close>

theorem bam_total_reads_sum_counterexample:
  "length (py_split ''chr1 1000 7 0'') = 4 \<and> length (py_split ''chr2 5 seven 0'') = 4 \<and>
   stats_word_count = [''chr1 1000 7 0'', ''chr2 5 seven 0''] \<and>
   bam_total_reads (pysam_stub (Lines stats_word_count) index_writes_nothing []) (bam_only 200)
     ''s.bam'' = (Inl ValueError, bam_only 200)"
  by (simp add: bam_total_reads_def eval_strings stats_word_count_def pysam_stub_def)

text \<open>
  Claim C1, amended. When every line of the index statistics splits into exactly four
  whitespace-separated fields and the third field of every line is an integer literal
  (one \<^verbatim>\<open>int()\<close> reads), \<open>bam_total_reads\<close> returns the sum over all lines of the third
  field read as an integer, and leaves the file system and the log as they were. The
  statistics may come as one text or as a list of lines.
\<close>

theorem bam_total_reads_sum:
  assumes "pysam_idxstats py w bam_fname = Inr out"
    and "\<forall>line\<in>set (stats_lines out). length (py_split line) = 4"
    and "\<forall>line\<in>set (stats_lines out). \<exists>n. mapped_field line = Inr n"
  shows "bam_total_reads py w bam_fname =
           (Inr (\<Sum>line\<leftarrow>stats_lines out. projr (mapped_field line)), w)"
proof -
  from assms(3) have "\<forall>line\<in>set (stats_lines out). \<not> isl (mapped_field line)"
    by auto
  with assms(1,2) show ?thesis
    by (simp add: bam_total_reads_def sum_mapped_well_formed)
qed

theorem bam_total_reads_sum_witness:
  "bam_total_reads (pysam_stub (Text stats_text) index_writes_nothing []) (bam_only 200) ''s.bam''
     = (Inr 42, bam_only 200) \<and>
   bam_total_reads (pysam_stub (Lines stats_list) index_writes_nothing []) (bam_only 200) ''s.bam''
     = (Inr 19, bam_only 200)"
proof -
  have as_text: "bam_total_reads (pysam_stub (Text stats_text) index_writes_nothing [])
      (bam_only 200) ''s.bam'' = (Inr 42, bam_only 200)"
    using bam_total_reads_sum [of "pysam_stub (Text stats_text) index_writes_nothing []"
        "bam_only 200" "''s.bam''" "Text stats_text"]
    by (simp add: eval_strings stats_text_def pysam_stub_def)
  have as_lines: "bam_total_reads (pysam_stub (Lines stats_list) index_writes_nothing [])
      (bam_only 200) ''s.bam'' = (Inr 19, bam_only 200)"
    using bam_total_reads_sum [of "pysam_stub (Lines stats_list) index_writes_nothing []"
        "bam_only 200" "''s.bam''" "Lines stats_list"]
    by (simp add: eval_strings stats_list_def pysam_stub_def)
  from as_text as_lines show ?thesis by simp
qed

text \<open>
  Claim C7. When some line of the index statistics does not split into exactly four
  whitespace-separated fields, \<open>bam_total_reads\<close> raises \<^verbatim>\<open>ValueError\<close> (the format
  error of the specification: the exception of a tuple unpacking of the wrong length)
  and returns no sum, whatever the lines before the malformed one hold.
\<close>

theorem bam_total_reads_malformed:
  assumes "pysam_idxstats py w bam_fname = Inr out"
    and "\<exists>line\<in>set (stats_lines out). length (py_split line) \<noteq> 4"
  shows "bam_total_reads py w bam_fname = (Inl ValueError, w)"
  using assms by (simp add: bam_total_reads_def sum_mapped_malformed)

theorem bam_total_reads_malformed_witness:
  "bam_total_reads (pysam_stub (Lines stats_short_line) index_writes_nothing []) (bam_only 200)
     ''s.bam'' = (Inl ValueError, bam_only 200)"
  using bam_total_reads_malformed [of "pysam_stub (Lines stats_short_line) index_writes_nothing []"
      "bam_only 200" "''s.bam''" "Lines stats_short_line"]
  by (simp add: eval_strings stats_short_line_def pysam_stub_def)

text \<open>
  Claim C9, as stated, fails: the module reads each count with \<^verbatim>\<open>int()\<close>, which accepts
  a sign, and checks nothing, so a statistics line with a negative mapped count gives a
  negative total.
\<close>

theorem bam_total_reads_negative_counterexample:
  "bam_total_reads (pysam_stub (Lines stats_negative) index_writes_nothing []) (bam_only 200)
     ''s.bam'' = (Inr (- 5), bam_only 200)"
  by (simp add: bam_total_reads_def eval_strings stats_negative_def pysam_stub_def)

text \<open>
  Claim C9, amended. When no well-formed statistics line carries a negative mapped
  count, the value \<open>bam_total_reads\<close> returns is a non-negative integer.
\<close>

theorem bam_total_reads_nonneg:
  assumes "bam_total_reads py w bam_fname = (Inr n, w')"
    and "pysam_idxstats py w bam_fname = Inr out"
    and "\<forall>line\<in>set (stats_lines out). \<forall>m.
           length (py_split line) = 4 \<and> mapped_field line = Inr m \<longrightarrow> 0 \<le> m"
  shows "0 \<le> n"
proof -
  from assms(1,2) have "sum_mapped 0 (stats_lines out) = Inr n"
    by (simp add: bam_total_reads_def)
  from sum_mapped_nonneg [OF this _ assms(3)] show ?thesis by simp
qed

theorem bam_total_reads_nonneg_witness:
  "bam_total_reads (pysam_stub (Lines [''chr1 1000 12 0'', ''* 0 0 7'']) index_writes_nothing [])
     (bam_only 200) ''s.bam'' = (Inr 12, bam_only 200) \<and> (0::int) \<le> 12"
proof -
  let ?py = "pysam_stub (Lines [''chr1 1000 12 0'', ''* 0 0 7'']) index_writes_nothing []"
  have run: "bam_total_reads ?py (bam_only 200) ''s.bam'' = (Inr 12, bam_only 200)"
    by (simp add: bam_total_reads_def eval_strings pysam_stub_def)
  have stats: "pysam_idxstats ?py (bam_only 200) ''s.bam'' = Inr (Lines [''chr1 1000 12 0'', ''* 0 0 7''])"
    by (simp add: pysam_stub_def)
  have counts: "\<forall>line\<in>set (stats_lines (Lines [''chr1 1000 12 0'', ''* 0 0 7''])). \<forall>m.
           length (py_split line) = 4 \<and> mapped_field line = Inr m \<longrightarrow> 0 \<le> m"
    by (auto simp: eval_strings)
  from bam_total_reads_nonneg [OF run stats counts] run show ?thesis by simp
qed

subsection \<open>is_newer_than\<close>

text \<open>
  Claim C8. \<open>is_newer_than\<close> returns false whenever the target path is not an existing
  file; otherwise, the reference being a path \<^verbatim>\<open>os.stat\<close> can read, it returns true
  exactly when the target's modification time is at least the reference's, so equal
  times give true.
\<close>

theorem is_newer_than_spec:
  "(\<not> isfile w target_fname \<longrightarrow> is_newer_than w target_fname orig_fname = Inr False) \<and>
   (isfile w target_fname \<longrightarrow> files w orig_fname = Some st_orig \<longrightarrow>
      (\<exists>st_target. files w target_fname = Some st_target \<and>
         is_newer_than w target_fname orig_fname
           = Inr (st_mtime st_orig \<le> st_mtime st_target))) \<and>
   (isfile w target_fname \<longrightarrow> files w target_fname = Some st_target \<longrightarrow>
      files w orig_fname = Some st_orig \<longrightarrow> st_mtime st_target = st_mtime st_orig \<longrightarrow>
      is_newer_than w target_fname orig_fname = Inr True)"
  by (auto simp: is_newer_than_def isfile_def split: option.splits)

theorem is_newer_than_spec_witness:
  "is_newer_than (add_file (bam_only 200) ''s.bam.bai'' 200) ''s.bam.bai'' ''s.bam'' = Inr True \<and>
   is_newer_than (add_file (bam_only 200) ''s.bam.bai'' 100) ''s.bam.bai'' ''s.bam'' = Inr False \<and>
   is_newer_than (bam_only 200) ''s.bam.bai'' ''s.bam'' = Inr False"
  using is_newer_than_spec [of "add_file (bam_only 200) ''s.bam.bai'' 200" "''s.bam.bai''" "''s.bam''"
      "\<lparr>is_regular = True, st_mtime = 200\<rparr>" "\<lparr>is_regular = True, st_mtime = 200\<rparr>"]
    is_newer_than_spec [of "add_file (bam_only 200) ''s.bam.bai'' 100" "''s.bam.bai''" "''s.bam''"
      "\<lparr>is_regular = True, st_mtime = 200\<rparr>" "\<lparr>is_regular = True, st_mtime = 100\<rparr>"]
    is_newer_than_spec [of "bam_only 200" "''s.bam.bai''" "''s.bam''"]
  by (simp add: add_file_def bam_only_def isfile_def)

subsection \<open>ensure_bam_sorted\<close>

lemma str_le_lexord:
  "str_le a b \<longleftrightarrow> a = b \<or> (a, b) \<in> lexord {(x, y). (of_char x :: nat) < of_char y}"
proof (induction a b rule: str_le.induct)
  case (1 ys)
  show ?case by (cases ys) auto
qed auto

lemma out_of_order_Some: "out_of_order by_name rd (Some prev) = (\<not> in_order by_name prev rd)"
  by (simp add: out_of_order_def in_order_def)

lemma out_of_order_None: "out_of_order by_name rd None = False"
  by (simp add: out_of_order_def)

lemma sorted_loop_Some:
  "sorted_loop by_name (Some prev) rds = successively (in_order by_name) (prev # rds)"
  by (induction rds arbitrary: prev) (simp_all add: out_of_order_Some)

lemma sorted_loop_None:
  "sorted_loop by_name None rds = successively (in_order by_name) rds"
  by (cases rds) (simp_all add: out_of_order_None sorted_loop_Some)

lemma successively_nth:
  "successively P xs \<longleftrightarrow> (\<forall>i. Suc i < length xs \<longrightarrow> P (xs ! i) (xs ! Suc i))"
proof (induction P xs rule: successively.induct)
  case (3 P x y xs)
  show ?case
  proof
    assume a: "successively P (x # y # xs)"
    show "\<forall>i. Suc i < length (x # y # xs) \<longrightarrow> P ((x # y # xs) ! i) ((x # y # xs) ! Suc i)"
    proof (intro allI impI)
      fix i assume i: "Suc i < length (x # y # xs)"
      show "P ((x # y # xs) ! i) ((x # y # xs) ! Suc i)"
      proof (cases i)
        case 0
        with a show ?thesis by simp
      next
        case (Suc j)
        with a i 3 show ?thesis by simp
      qed
    qed
  next
    assume a: "\<forall>i. Suc i < length (x # y # xs) \<longrightarrow> P ((x # y # xs) ! i) ((x # y # xs) ! Suc i)"
    from a [rule_format, of 0] have "P x y" by simp
    moreover have "\<forall>i. Suc i < length (y # xs) \<longrightarrow> P ((y # xs) ! i) ((y # xs) ! Suc i)"
    proof (intro allI impI)
      fix i assume "Suc i < length (y # xs)"
      with a [rule_format, of "Suc i"] show "P ((y # xs) ! i) ((y # xs) ! Suc i)" by simp
    qed
    ultimately show "successively P (x # y # xs)" using 3 by simp
  qed
qed simp_all

lemma sorted_loop_out_of_order:
  "out_of_order by_name rd (Some prev) \<Longrightarrow> sorted_loop by_name last_read (pre @ prev # rd # rest) = False"
  by (induction pre arbitrary: last_read) simp_all

lemma ensure_bam_sorted_eq:
  "pysam_Samfile py w f = Inr recs \<Longrightarrow> 0 \<le> n \<Longrightarrow> n \<le> sys_maxint \<Longrightarrow>
   ensure_bam_sorted py w f by_name n = Inr (sorted_loop by_name None (take (nat n) recs))"
  by (simp add: ensure_bam_sorted_def)


text \<open>
  Claim C3. On the reads of the sampled prefix (the first \<open>span_arg\<close> reads),
  \<open>ensure_bam_sorted\<close> answers whether every read is in order with the read just before
  it: by query name, the name is lexicographically (by byte value) at least its
  predecessor's; by position, the read is on a different reference sequence than its
  predecessor or at a position at least its predecessor's. The reads
  (ref 0, pos 10), (ref 0, pos 20), (ref 1, pos 5) are sorted by position; the reads
  (ref 0, pos 20), (ref 0, pos 10) are not.
\<close>

theorem ensure_bam_sorted_pairwise:
  "(pysam_Samfile py w bam_fname = Inr recs \<longrightarrow> 0 \<le> span_arg \<longrightarrow> span_arg \<le> sys_maxint \<longrightarrow>
      ensure_bam_sorted py w bam_fname by_name span_arg =
        Inr (\<forall>i. Suc i < length (take (nat span_arg) recs) \<longrightarrow>
               in_order by_name (take (nat span_arg) recs ! i) (take (nat span_arg) recs ! Suc i))) \<and>
   in_order True prev rd =
     (qname prev = qname rd \<or>
      (qname prev, qname rd) \<in> lexord {(x, y). (of_char x :: nat) < of_char y}) \<and>
   in_order False prev rd = (tid rd \<noteq> tid prev \<or> pos prev \<le> pos rd) \<and>
   ensure_bam_sorted
     (pysam_stub out idx [\<lparr>qname = n1, tid = 0, pos = 10\<rparr>, \<lparr>qname = n2, tid = 0, pos = 20\<rparr>,
        \<lparr>qname = n3, tid = 1, pos = 5\<rparr>]) w bam_fname False default_span = Inr True \<and>
   ensure_bam_sorted
     (pysam_stub out idx [\<lparr>qname = n1, tid = 0, pos = 20\<rparr>, \<lparr>qname = n2, tid = 0, pos = 10\<rparr>])
     w bam_fname False default_span = Inr False"
proof -
  have general: "ensure_bam_sorted py w bam_fname by_name span_arg =
        Inr (\<forall>i. Suc i < length (take (nat span_arg) recs) \<longrightarrow>
               in_order by_name (take (nat span_arg) recs ! i) (take (nat span_arg) recs ! Suc i))"
    if "pysam_Samfile py w bam_fname = Inr recs" "0 \<le> span_arg" "span_arg \<le> sys_maxint"
    using that
    by (simp only: ensure_bam_sorted_eq sorted_loop_None successively_nth)
  have by_name: "in_order True prev rd =
     (qname prev = qname rd \<or>
      (qname prev, qname rd) \<in> lexord {(x, y). (of_char x :: nat) < of_char y})"
    by (simp add: in_order_def str_le_lexord)
  have by_pos: "in_order False prev rd = (tid rd \<noteq> tid prev \<or> pos prev \<le> pos rd)"
    by (simp add: in_order_def)
  have ex1: "ensure_bam_sorted
     (pysam_stub out idx [\<lparr>qname = n1, tid = 0, pos = 10\<rparr>, \<lparr>qname = n2, tid = 0, pos = 20\<rparr>,
        \<lparr>qname = n3, tid = 1, pos = 5\<rparr>]) w bam_fname False default_span = Inr True"
    by (simp add: ensure_bam_sorted_def pysam_stub_def default_span_def sys_maxint_def
        out_of_order_def)
  have ex2: "ensure_bam_sorted
     (pysam_stub out idx [\<lparr>qname = n1, tid = 0, pos = 20\<rparr>, \<lparr>qname = n2, tid = 0, pos = 10\<rparr>])
     w bam_fname False default_span = Inr False"
    by (simp add: ensure_bam_sorted_def pysam_stub_def default_span_def sys_maxint_def
        out_of_order_def)
  from general by_name by_pos ex1 ex2 show ?thesis by blast
qed

theorem ensure_bam_sorted_pairwise_witness:
  "ensure_bam_sorted
     (pysam_stub (Lines []) index_writes_nothing
        [\<lparr>qname = ''readA'', tid = 0, pos = 10\<rparr>, \<lparr>qname = ''readA'', tid = 0, pos = 20\<rparr>,
         \<lparr>qname = ''readB'', tid = 1, pos = 5\<rparr>, \<lparr>qname = ''readA'', tid = 1, pos = 7\<rparr>])
     (bam_only 200) ''s.bam'' True 3 = Inr True \<and>
   ensure_bam_sorted
     (pysam_stub (Lines []) index_writes_nothing
        [\<lparr>qname = ''readA'', tid = 0, pos = 10\<rparr>, \<lparr>qname = ''readA'', tid = 0, pos = 20\<rparr>,
         \<lparr>qname = ''readB'', tid = 1, pos = 5\<rparr>, \<lparr>qname = ''readA'', tid = 1, pos = 7\<rparr>])
     (bam_only 200) ''s.bam'' True 4 = Inr False"
proof -
  let ?recs = "[\<lparr>qname = ''readA'', tid = 0, pos = 10\<rparr>, \<lparr>qname = ''readA'', tid = 0, pos = 20\<rparr>,
         \<lparr>qname = ''readB'', tid = 1, pos = 5\<rparr>, \<lparr>qname = ''readA'', tid = 1, pos = 7\<rparr>]"
  let ?py = "pysam_stub (Lines []) index_writes_nothing ?recs"
  have opened: "pysam_Samfile ?py (bam_only 200) ''s.bam'' = Inr ?recs"
    by (simp add: pysam_stub_def)
  have range3: "(0::int) \<le> 3" "3 \<le> sys_maxint" and range4: "(0::int) \<le> 4" "4 \<le> sys_maxint"
    by (simp_all add: sys_maxint_def)
  have three: "(\<forall>i. Suc i < length (take (nat 3) ?recs) \<longrightarrow>
      in_order True (take (nat 3) ?recs ! i) (take (nat 3) ?recs ! Suc i)) = True"
    by (simp add: in_order_def less_Suc_eq numeral_3_eq_3 nth_Cons')
  have four: "(\<forall>i. Suc i < length (take (nat 4) ?recs) \<longrightarrow>
      in_order True (take (nat 4) ?recs ! i) (take (nat 4) ?recs ! Suc i)) = False"
    by (auto simp: in_order_def intro!: exI [of _ 2])
  from ensure_bam_sorted_pairwise [of ?py "bam_only 200" "''s.bam''" ?recs 3 True]
    ensure_bam_sorted_pairwise [of ?py "bam_only 200" "''s.bam''" ?recs 4 True]
    opened range3 range4 three four
  show ?thesis by simp
qed


text \<open>
  Claim C4. \<open>ensure_bam_sorted\<close> looks at the first \<open>span_arg\<close> reads only (50 by
  default): a file with the same first \<open>span_arg\<close> reads gets the same answer. The answer
  is false as soon as a read within the sample is out of order with the read before it,
  whatever comes after; it is true for a file with no read or one read, and for a
  sample in which no read is out of order, in either mode.
\<close>

theorem ensure_bam_sorted_sample:
  assumes "pysam_Samfile py w bam_fname = Inr recs"
    and "0 \<le> span_arg" and "span_arg \<le> sys_maxint"
  shows "(\<forall>recs'. take (nat span_arg) recs' = take (nat span_arg) recs \<longrightarrow>
            ensure_bam_sorted (py\<lparr>pysam_Samfile := (\<lambda>w f. Inr recs')\<rparr>) w bam_fname by_name span_arg
              = ensure_bam_sorted py w bam_fname by_name span_arg) \<and>
         (\<forall>pre prev rd rest. recs = pre @ prev # rd # rest \<and> length pre + 2 \<le> nat span_arg \<and>
            out_of_order by_name rd (Some prev) \<longrightarrow>
            ensure_bam_sorted py w bam_fname by_name span_arg = Inr False) \<and>
         (length recs \<le> 1 \<longrightarrow> ensure_bam_sorted py w bam_fname by_name span_arg = Inr True) \<and>
         ((\<forall>i. Suc i < length (take (nat span_arg) recs) \<longrightarrow>
              \<not> out_of_order by_name (take (nat span_arg) recs ! Suc i)
                   (Some (take (nat span_arg) recs ! i))) \<longrightarrow>
            ensure_bam_sorted py w bam_fname by_name span_arg = Inr True) \<and>
         0 \<le> default_span \<and> default_span \<le> sys_maxint"
proof -
  note run = ensure_bam_sorted_eq [OF assms]
  have prefix: "ensure_bam_sorted (py\<lparr>pysam_Samfile := (\<lambda>w f. Inr recs')\<rparr>) w bam_fname by_name span_arg
              = ensure_bam_sorted py w bam_fname by_name span_arg"
    if "take (nat span_arg) recs' = take (nat span_arg) recs" for recs'
    using that assms by (simp add: ensure_bam_sorted_def)
  have short: "ensure_bam_sorted py w bam_fname by_name span_arg = Inr False"
    if "recs = pre @ prev # rd # rest" "length pre + 2 \<le> nat span_arg"
      "out_of_order by_name rd (Some prev)" for pre prev rd rest
  proof -
    from that(1,2) have "take (nat span_arg) recs
        = pre @ prev # rd # take (nat span_arg - length pre - 2) rest"
      by (simp add: take_Cons' numeral_2_eq_2)
    with that(3) show ?thesis by (simp add: run sorted_loop_out_of_order)
  qed
  have small: "ensure_bam_sorted py w bam_fname by_name span_arg = Inr True" if "length recs \<le> 1"
  proof -
    obtain pfx where pfx: "take (nat span_arg) recs = pfx" by simp
    with that have "length pfx \<le> 1" by auto
    then have "sorted_loop by_name None pfx"
      by (cases pfx) (simp_all add: out_of_order_None)
    with pfx show ?thesis by (simp add: run)
  qed
  have ordered: "ensure_bam_sorted py w bam_fname by_name span_arg = Inr True"
    if "\<forall>i. Suc i < length (take (nat span_arg) recs) \<longrightarrow>
              \<not> out_of_order by_name (take (nat span_arg) recs ! Suc i)
                   (Some (take (nat span_arg) recs ! i))"
    using that by (simp add: run sorted_loop_None successively_nth out_of_order_Some)
  have dflt: "0 \<le> default_span \<and> default_span \<le> sys_maxint"
    by (simp add: default_span_def sys_maxint_def)
  from prefix short small ordered dflt show ?thesis by blast
qed

theorem ensure_bam_sorted_sample_witness:
  "ensure_bam_sorted
     (pysam_stub (Lines []) index_writes_nothing
        [\<lparr>qname = ''a'', tid = 0, pos = 10\<rparr>, \<lparr>qname = ''b'', tid = 0, pos = 20\<rparr>,
         \<lparr>qname = ''c'', tid = 0, pos = 5\<rparr>, \<lparr>qname = ''d'', tid = 0, pos = 30\<rparr>])
     (bam_only 200) ''s.bam'' False 2 = Inr True \<and>
   ensure_bam_sorted
     (pysam_stub (Lines []) index_writes_nothing
        [\<lparr>qname = ''a'', tid = 0, pos = 10\<rparr>, \<lparr>qname = ''b'', tid = 0, pos = 20\<rparr>,
         \<lparr>qname = ''c'', tid = 0, pos = 5\<rparr>, \<lparr>qname = ''d'', tid = 0, pos = 30\<rparr>])
     (bam_only 200) ''s.bam'' False default_span = Inr False \<and>
   ensure_bam_sorted (pysam_stub (Lines []) index_writes_nothing [])
     (bam_only 200) ''s.bam'' True default_span = Inr True"
proof -
  let ?a = "\<lparr>qname = ''a'', tid = 0, pos = 10\<rparr>" and ?b = "\<lparr>qname = ''b'', tid = 0, pos = 20\<rparr>"
  let ?c = "\<lparr>qname = ''c'', tid = 0, pos = 5\<rparr>" and ?d = "\<lparr>qname = ''d'', tid = 0, pos = 30\<rparr>"
  let ?py = "pysam_stub (Lines []) index_writes_nothing [?a, ?b, ?c, ?d]"
  let ?none = "pysam_stub (Lines []) index_writes_nothing []"
  have opened: "pysam_Samfile ?py (bam_only 200) ''s.bam'' = Inr [?a, ?b, ?c, ?d]"
    and empty: "pysam_Samfile ?none (bam_only 200) ''s.bam'' = Inr []"
    by (simp_all add: pysam_stub_def)
  have range2: "(0::int) \<le> 2" "2 \<le> sys_maxint"
    and range50: "0 \<le> default_span" "default_span \<le> sys_maxint"
    by (simp_all add: sys_maxint_def default_span_def)
  have ordered2: "\<forall>i. Suc i < length (take (nat 2) [?a, ?b, ?c, ?d]) \<longrightarrow>
      \<not> out_of_order False (take (nat 2) [?a, ?b, ?c, ?d] ! Suc i)
           (Some (take (nat 2) [?a, ?b, ?c, ?d] ! i))"
    by (simp add: out_of_order_def numeral_2_eq_2)
  have unordered: "[?a, ?b, ?c, ?d] = [?a] @ ?b # ?c # [?d] \<and> length [?a] + 2 \<le> nat default_span \<and>
      out_of_order False ?c (Some ?b)"
    by (simp add: out_of_order_def default_span_def)
  from ensure_bam_sorted_sample [OF opened range2, of False] ordered2
  have first: "ensure_bam_sorted ?py (bam_only 200) ''s.bam'' False 2 = Inr True"
    by blast
  from ensure_bam_sorted_sample [OF opened range50, of False] unordered
  have second: "ensure_bam_sorted ?py (bam_only 200) ''s.bam'' False default_span = Inr False"
    by blast
  from ensure_bam_sorted_sample [OF empty range50, of True]
  have third: "ensure_bam_sorted ?none (bam_only 200) ''s.bam'' True default_span = Inr True"
    by simp
  from first second third show ?thesis by simp
qed

subsection \<open>ensure_bam_index\<close>

lemma is_newer_than_True_isfile: "is_newer_than w t orig = Inr True \<Longrightarrow> isfile w t"
  by (auto simp: is_newer_than_def split: if_splits)

lemma ensure_bam_index_fresh:
  "is_newer_than w (candidate_bai w f) f = Inr True \<Longrightarrow>
   ensure_bam_index py w f = (Inr (candidate_bai w f), w)"
  by (frule is_newer_than_True_isfile) (simp add: ensure_bam_index_def assert_isfile_def)

lemma ensure_bam_index_stale:
  "is_newer_than w (candidate_bai w f) f = Inr False \<Longrightarrow>
   ensure_bam_index py w f = regenerate py w f"
  by (simp add: ensure_bam_index_def)

lemma ensure_bam_index_error:
  "is_newer_than w (candidate_bai w f) f = Inl e \<Longrightarrow> ensure_bam_index py w f = (Inl e, w)"
  by (simp add: ensure_bam_index_def)

lemma regenerate_returns:
  "regenerate py w f = (Inr p, w') \<Longrightarrow> p = f @ ''.bai'' \<and> isfile w' p"
  by (auto simp: regenerate_def assert_isfile_def Let_def split: prod.splits sum.splits if_splits)

lemma ensure_bam_index_cases:
  assumes "ensure_bam_index py w f = (Inr p, w')"
  obtains (fresh) "is_newer_than w (candidate_bai w f) f = Inr True" "p = candidate_bai w f" "w' = w"
    | (stale) "is_newer_than w (candidate_bai w f) f = Inr False" "regenerate py w f = (Inr p, w')"
proof (cases "is_newer_than w (candidate_bai w f) f")
  case (Inl e)
  with assms show ?thesis by (simp add: ensure_bam_index_error)
next
  case (Inr newer)
  show ?thesis
  proof (cases newer)
    case True
    with Inr have n: "is_newer_than w (candidate_bai w f) f = Inr True" by simp
    from assms ensure_bam_index_fresh [OF n, of py]
    have "p = candidate_bai w f" and "w' = w" by auto
    with n show ?thesis by (rule fresh)
  next
    case False
    with Inr have n: "is_newer_than w (candidate_bai w f) f = Inr False" by simp
    from assms ensure_bam_index_stale [OF n, of py]
    have "regenerate py w f = (Inr p, w')" by auto
    with n show ?thesis by (rule stale)
  qed
qed

lemma ensure_bam_index_returns:
  assumes "ensure_bam_index py w f = (Inr p, w')"
  shows "isfile w' p \<and> candidate_bai w' f = p"
  using assms
proof (cases rule: ensure_bam_index_cases)
  case fresh
  then show ?thesis by (simp add: is_newer_than_True_isfile)
next
  case stale
  from regenerate_returns [OF stale(2)] show ?thesis by (auto simp: candidate_bai_def)
qed

lemma candidate_not_primary: "butlast f @ ''i'' \<noteq> f @ ''.bai''"
proof
  assume "butlast f @ ''i'' = f @ ''.bai''"
  then have "length (butlast f @ ''i'') = length (f @ ''.bai'')" by simp
  then show False by simp
qed

lemmas eval_index =
  ensure_bam_index_def regenerate_def candidate_bai_def is_newer_than_def assert_isfile_def Let_def

text \<open>
  Claim C2, as stated, fails. The index is trusted by its modification time only: for an
  alignment file modified at time 200 (a time stamp ahead of the clock, say) and an
  indexer that stamps the index it writes with time 100, the first call regenerates the
  index and returns \<^verbatim>\<open>s.bam.bai\<close>, and the second call, on the file system the first
  one left, regenerates it again: the log holds two entries.
\<close>

theorem ensure_bam_index_twice_counterexample:
  "ensure_bam_index late_indexer (bam_only 200) ''s.bam'' = (Inr ''s.bam.bai'', indexed_once 100) \<and>
   ensure_bam_index late_indexer (indexed_once 100) ''s.bam'' = (Inr ''s.bam.bai'', indexed_twice 100) \<and>
   logged (indexed_once 100) = [''Indexing BAM file s.bam''] \<and>
   logged (indexed_twice 100) = [''Indexing BAM file s.bam'', ''Indexing BAM file s.bam'']"
  by (simp add: eval_index eval_worlds late_indexer_def indexed_once_def indexed_twice_def)

text \<open>
  Claim C2, amended. The fast path of \<open>ensure_bam_index\<close> is idempotent: if the index
  file looked for exists with a modification time at least the alignment file's, the
  call returns its path and changes nothing. Hence two successful calls in succession
  return the same path, and the second call regenerates nothing (it changes nothing)
  whenever the index the first call returned is at least as new as the alignment file.
\<close>

theorem ensure_bam_index_idempotent:
  "(files w (candidate_bai w bam_fname) = Some st_bai \<longrightarrow> is_regular st_bai \<longrightarrow>
      files w bam_fname = Some st_bam \<longrightarrow> st_mtime st_bam \<le> st_mtime st_bai \<longrightarrow>
      ensure_bam_index py w bam_fname = (Inr (candidate_bai w bam_fname), w)) \<and>
   (ensure_bam_index py w bam_fname = (Inr p, w') \<longrightarrow>
      ensure_bam_index py w' bam_fname = (Inr p', w'') \<longrightarrow> p' = p) \<and>
   (ensure_bam_index py w bam_fname = (Inr p, w') \<longrightarrow> is_newer_than w' p bam_fname = Inr True \<longrightarrow>
      ensure_bam_index py w' bam_fname = (Inr p, w'))"
proof -
  have fast: "ensure_bam_index py w bam_fname = (Inr (candidate_bai w bam_fname), w)"
    if "files w (candidate_bai w bam_fname) = Some st_bai" "is_regular st_bai"
      "files w bam_fname = Some st_bam" "st_mtime st_bam \<le> st_mtime st_bai"
  proof -
    from that have "is_newer_than w (candidate_bai w bam_fname) bam_fname = Inr True"
      by (simp add: is_newer_than_def isfile_def)
    then show ?thesis by (rule ensure_bam_index_fresh)
  qed
  have same: "p' = p"
    if first: "ensure_bam_index py w bam_fname = (Inr p, w')"
      and second: "ensure_bam_index py w' bam_fname = (Inr p', w'')"
    using first
  proof (cases rule: ensure_bam_index_cases)
    case fresh
    with first second show ?thesis by auto
  next
    case stale
    from regenerate_returns [OF stale(2)]
    have p: "p = bam_fname @ ''.bai''" and "isfile w' (bam_fname @ ''.bai'')"
      by auto
    then have cand: "candidate_bai w' bam_fname = bam_fname @ ''.bai''"
      by (simp add: candidate_bai_def)
    from second show ?thesis
    proof (cases rule: ensure_bam_index_cases)
      case fresh
      with cand p show ?thesis by simp
    next
      case stale
      from regenerate_returns [OF stale(2)] p show ?thesis by simp
    qed
  qed
  have again: "ensure_bam_index py w' bam_fname = (Inr p, w')"
    if first: "ensure_bam_index py w bam_fname = (Inr p, w')"
      and newer: "is_newer_than w' p bam_fname = Inr True"
  proof -
    from ensure_bam_index_returns [OF first] have cand: "candidate_bai w' bam_fname = p" by simp
    with newer have "is_newer_than w' (candidate_bai w' bam_fname) bam_fname = Inr True" by simp
    from ensure_bam_index_fresh [OF this, of py] cand show ?thesis by simp
  qed
  from fast same again show ?thesis by blast
qed

theorem ensure_bam_index_idempotent_witness:
  "ensure_bam_index prompt_indexer (bam_only 200) ''s.bam'' = (Inr ''s.bam.bai'', indexed_once 250) \<and>
   ensure_bam_index prompt_indexer (indexed_once 250) ''s.bam'' = (Inr ''s.bam.bai'', indexed_once 250) \<and>
   ensure_bam_index idle_indexer (add_file (bam_only 200) ''s.bai'' 200) ''s.bam''
     = (Inr ''s.bai'', add_file (bam_only 200) ''s.bai'' 200)"
proof -
  have first: "ensure_bam_index prompt_indexer (bam_only 200) ''s.bam''
      = (Inr ''s.bam.bai'', indexed_once 250)"
    by (simp add: eval_index eval_worlds prompt_indexer_def indexed_once_def)
  have newer: "is_newer_than (indexed_once 250) ''s.bam.bai'' ''s.bam'' = Inr True"
    by (simp add: eval_index eval_worlds indexed_once_def)
  have cand: "candidate_bai (add_file (bam_only 200) ''s.bai'' 200) ''s.bam'' = ''s.bai''"
    by (simp add: eval_index eval_worlds)
  have stats: "files (add_file (bam_only 200) ''s.bai'' 200) ''s.bai''
        = Some \<lparr>is_regular = True, st_mtime = 200\<rparr>"
      "files (add_file (bam_only 200) ''s.bai'' 200) ''s.bam''
        = Some \<lparr>is_regular = True, st_mtime = 200\<rparr>"
    by (simp_all add: eval_worlds)
  note thm1 = ensure_bam_index_idempotent [of "bam_only 200" "''s.bam''" _ _ prompt_indexer
      "''s.bam.bai''" "indexed_once 250"]
  note thm2 = ensure_bam_index_idempotent [of "add_file (bam_only 200) ''s.bai'' 200" "''s.bam''"
      "\<lparr>is_regular = True, st_mtime = 200\<rparr>" "\<lparr>is_regular = True, st_mtime = 200\<rparr>" idle_indexer]
  from thm1 first newer
  have second: "ensure_bam_index prompt_indexer (indexed_once 250) ''s.bam''
      = (Inr ''s.bam.bai'', indexed_once 250)"
    by blast
  from thm2 cand stats
  have third: "ensure_bam_index idle_indexer (add_file (bam_only 200) ''s.bai'' 200) ''s.bam''
     = (Inr ''s.bai'', add_file (bam_only 200) ''s.bai'' 200)"
    by simp
  from first second third show ?thesis by simp
qed

text \<open>
  Claim C5. The index file \<open>ensure_bam_index\<close> looks for is \<^verbatim>\<open><file>.bai\<close> when that is
  a file, and otherwise the file name with its last character replaced by \<^verbatim>\<open>i\<close>; that
  path is returned when it is newer than the alignment file. When it is not, the index
  is regenerated, and the path returned is \<^verbatim>\<open><file>.bai\<close> whichever path was looked
  for.
\<close>

theorem ensure_bam_index_paths:
  "(isfile w (bam_fname @ ''.bai'') \<longrightarrow> candidate_bai w bam_fname = bam_fname @ ''.bai'') \<and>
   (\<not> isfile w (bam_fname @ ''.bai'') \<longrightarrow> candidate_bai w bam_fname = butlast bam_fname @ ''i'') \<and>
   (is_newer_than w (candidate_bai w bam_fname) bam_fname = Inr True \<longrightarrow>
      ensure_bam_index py w bam_fname = (Inr (candidate_bai w bam_fname), w)) \<and>
   (is_newer_than w (candidate_bai w bam_fname) bam_fname = Inr False \<longrightarrow>
      ensure_bam_index py w bam_fname = regenerate py w bam_fname) \<and>
   (is_newer_than w (candidate_bai w bam_fname) bam_fname = Inr False \<longrightarrow>
      ensure_bam_index py w bam_fname = (Inr p, w') \<longrightarrow> p = bam_fname @ ''.bai'')"
proof -
  have regen: "p = bam_fname @ ''.bai''"
    if "is_newer_than w (candidate_bai w bam_fname) bam_fname = Inr False"
      "ensure_bam_index py w bam_fname = (Inr p, w')"
  proof -
    from that have "regenerate py w bam_fname = (Inr p, w')"
      by (simp add: ensure_bam_index_stale)
    from regenerate_returns [OF this] show ?thesis by blast
  qed
  have cand: "(isfile w (bam_fname @ ''.bai'') \<longrightarrow> candidate_bai w bam_fname = bam_fname @ ''.bai'') \<and>
      (\<not> isfile w (bam_fname @ ''.bai'') \<longrightarrow> candidate_bai w bam_fname = butlast bam_fname @ ''i'')"
    by (simp add: candidate_bai_def)
  from cand regen ensure_bam_index_fresh [of w bam_fname py]
    ensure_bam_index_stale [of w bam_fname py]
  show ?thesis by blast
qed

theorem ensure_bam_index_paths_witness:
  "ensure_bam_index prompt_indexer (add_file (bam_only 200) ''s.bai'' 300) ''s.bam''
     = (Inr ''s.bai'', add_file (bam_only 200) ''s.bai'' 300) \<and>
   fst (ensure_bam_index prompt_indexer (add_file (bam_only 200) ''s.bai'' 100) ''s.bam'')
     = Inr ''s.bam.bai''"
proof -
  let ?fresh = "add_file (bam_only 200) ''s.bai'' 300" and ?stale = "add_file (bam_only 200) ''s.bai'' 100"
  have absent: "\<not> isfile ?fresh ''s.bam.bai''" "\<not> isfile ?stale ''s.bam.bai''"
    by (simp_all add: eval_worlds)
  with ensure_bam_index_paths [of ?fresh "''s.bam''"] ensure_bam_index_paths [of ?stale "''s.bam''"]
  have cand: "candidate_bai ?fresh ''s.bam'' = ''s.bai''" "candidate_bai ?stale ''s.bam'' = ''s.bai''"
    by simp_all
  have newer: "is_newer_than ?fresh ''s.bai'' ''s.bam'' = Inr True"
    and older: "is_newer_than ?stale ''s.bai'' ''s.bam'' = Inr False"
    by (simp_all add: is_newer_than_def eval_worlds)
  from ensure_bam_index_paths [of ?fresh "''s.bam''" prompt_indexer] cand newer
  have first: "ensure_bam_index prompt_indexer ?fresh ''s.bam'' = (Inr ''s.bai'', ?fresh)"
    by simp
  obtain r w' where run: "ensure_bam_index prompt_indexer ?stale ''s.bam'' = (r, w')"
    by (cases "ensure_bam_index prompt_indexer ?stale ''s.bam''")
  have "r = Inr ''s.bam.bai''"
  proof (cases r)
    case (Inl e)
    with run show ?thesis by (simp add: eval_index eval_worlds prompt_indexer_def)
  next
    case (Inr p)
    with ensure_bam_index_paths [of ?stale "''s.bam''" prompt_indexer p w'] cand older run
    show ?thesis by simp
  qed
  with run first show ?thesis by simp
qed

text \<open>
  Claim C6. If the indexer returns and \<^verbatim>\<open><file>.bai\<close> is still no file,
  \<open>ensure_bam_index\<close> raises \<^verbatim>\<open>AssertionError\<close> (the generation error of the
  specification); a path it returns is always an existing file.
\<close>

theorem ensure_bam_index_generation_error:
  "(is_newer_than w (candidate_bai w bam_fname) bam_fname = Inr False \<longrightarrow>
      pysam_index py (logging_info w (''Indexing BAM file '' @ bam_fname)) bam_fname = (Inr u, w2) \<longrightarrow>
      \<not> isfile w2 (bam_fname @ ''.bai'') \<longrightarrow>
      ensure_bam_index py w bam_fname
        = (Inl (AssertionError (''Failed to generate index '' @ bam_fname @ ''.bai'')), w2)) \<and>
   (ensure_bam_index py w bam_fname = (Inr p, w') \<longrightarrow> isfile w' p)"
proof -
  have absent: "ensure_bam_index py w bam_fname
        = (Inl (AssertionError (''Failed to generate index '' @ bam_fname @ ''.bai'')), w2)"
    if "is_newer_than w (candidate_bai w bam_fname) bam_fname = Inr False"
      "pysam_index py (logging_info w (''Indexing BAM file '' @ bam_fname)) bam_fname = (Inr u, w2)"
      "\<not> isfile w2 (bam_fname @ ''.bai'')"
    using that by (simp add: ensure_bam_index_stale regenerate_def assert_isfile_def)
  have present: "isfile w' p" if "ensure_bam_index py w bam_fname = (Inr p, w')"
    using ensure_bam_index_returns [OF that] by simp
  from absent present show ?thesis by blast
qed

theorem ensure_bam_index_generation_error_witness:
  "ensure_bam_index idle_indexer (bam_only 200) ''s.bam''
     = (Inl (AssertionError ''Failed to generate index s.bam.bai''),
        logging_info (bam_only 200) ''Indexing BAM file s.bam'')"
proof -
  let ?w2 = "logging_info (bam_only 200) ''Indexing BAM file s.bam''"
  have older: "is_newer_than (bam_only 200) (candidate_bai (bam_only 200) ''s.bam'') ''s.bam'' = Inr False"
    by (simp add: is_newer_than_def candidate_bai_def eval_worlds)
  have idx: "pysam_index idle_indexer (logging_info (bam_only 200) (''Indexing BAM file '' @ ''s.bam''))
      ''s.bam'' = (Inr (), ?w2)"
    by (simp add: idle_indexer_def eval_worlds)
  have absent: "\<not> isfile ?w2 (''s.bam'' @ ''.bai'')"
    by (simp add: eval_worlds)
  from ensure_bam_index_generation_error [of "bam_only 200" "''s.bam''" idle_indexer "()" ?w2]
    older idx absent
  show ?thesis by simp
qed

text \<open>
  Claim C10. When \<^verbatim>\<open><file>.bai\<close> is a file, \<open>ensure_bam_index\<close> is decided by that
  path alone: it is the path compared with the alignment file and the only path ever
  returned, and if it is older than the alignment file the index is regenerated, also
  when the other index file exists and is newer.
\<close>

theorem ensure_bam_index_primary_first:
  assumes "isfile w (bam_fname @ ''.bai'')"
  shows "ensure_bam_index py w bam_fname =
           (case is_newer_than w (bam_fname @ ''.bai'') bam_fname of
              Inl e \<Rightarrow> (Inl e, w)
            | Inr newer \<Rightarrow>
                if newer then (Inr (bam_fname @ ''.bai''), w) else regenerate py w bam_fname) \<and>
         (\<forall>p w'. ensure_bam_index py w bam_fname = (Inr p, w') \<longrightarrow>
            p = bam_fname @ ''.bai'' \<and> p \<noteq> butlast bam_fname @ ''i'')"
proof -
  from assms have cand: "candidate_bai w bam_fname = bam_fname @ ''.bai''"
    by (simp add: candidate_bai_def)
  with assms have run: "ensure_bam_index py w bam_fname =
           (case is_newer_than w (bam_fname @ ''.bai'') bam_fname of
              Inl e \<Rightarrow> (Inl e, w)
            | Inr newer \<Rightarrow>
                if newer then (Inr (bam_fname @ ''.bai''), w) else regenerate py w bam_fname)"
    by (simp add: ensure_bam_index_def assert_isfile_def split: sum.splits)
  have path: "p = bam_fname @ ''.bai'' \<and> p \<noteq> butlast bam_fname @ ''i''"
    if "ensure_bam_index py w bam_fname = (Inr p, w')" for p w'
    using that
  proof (cases rule: ensure_bam_index_cases)
    case fresh
    with cand candidate_not_primary [of bam_fname] show ?thesis by auto
  next
    case stale
    from regenerate_returns [OF stale(2)] candidate_not_primary [of bam_fname]
    show ?thesis by auto
  qed
  from run path show ?thesis by blast
qed

theorem ensure_bam_index_primary_first_witness:
  "ensure_bam_index prompt_indexer
     (add_file (add_file (bam_only 200) ''s.bam.bai'' 100) ''s.bai'' 300) ''s.bam''
     = (Inr ''s.bam.bai'',
        add_file (logging_info (add_file (add_file (bam_only 200) ''s.bam.bai'' 100) ''s.bai'' 300)
          ''Indexing BAM file s.bam'') ''s.bam.bai'' 250)"
proof -
  let ?w = "add_file (add_file (bam_only 200) ''s.bam.bai'' 100) ''s.bai'' 300"
  have primary: "isfile ?w (''s.bam'' @ ''.bai'')"
    by (simp add: eval_worlds)
  have older: "is_newer_than ?w (''s.bam'' @ ''.bai'') ''s.bam'' = Inr False"
    by (simp add: is_newer_than_def eval_worlds)
  have regen: "regenerate prompt_indexer ?w ''s.bam''
      = (Inr ''s.bam.bai'', add_file (logging_info ?w ''Indexing BAM file s.bam'') ''s.bam.bai'' 250)"
    by (simp add: eval_index eval_worlds prompt_indexer_def)
  from ensure_bam_index_primary_first [OF primary, of prompt_indexer] older regen
  show ?thesis by simp
qed

end
